theory Spec2Isabelle
  imports Complex_Main
begin

section \<open>Time and numbers\<close>

text \<open>
  A JavaScript \<open>Date\<close> is modelled by its \<open>getTime()\<close> value: an integer number of
  milliseconds since the epoch. Calendar days are taken in a zone with a fixed offset
  (UTC), so a day is always 86400000 ms long. In the aggregations the weights and
  repetitions (columns DECIMAL(10,2) and INTEGER) are rationals and counts are naturals;
  the unit conversion, whose result depends on the rounding of doubles, is modelled in
  binary64 arithmetic.
\<close>

type_synonym timestamp = int

definition msPerDay :: int where
  "msPerDay = 86400000"

definition msPerHour :: int where
  "msPerHour = 3600000"

text \<open>date-fns \<open>subDays(date, n)\<close>: the instant \<open>n\<close> days earlier.\<close>

definition subDays :: "timestamp \<Rightarrow> int \<Rightarrow> timestamp" where
  "subDays d n = d - n * msPerDay"

text \<open>
  date-fns \<open>differenceInDays(dateLeft, dateRight)\<close>: the number of full 24-hour periods
  between the two instants, the fraction truncated towards zero (the library's documented
  result; it is negative when \<open>dateLeft\<close> is the earlier one).
\<close>

definition differenceInDays :: "timestamp \<Rightarrow> timestamp \<Rightarrow> int" where
  "differenceInDays dateLeft dateRight =
     (if dateRight \<le> dateLeft then (dateLeft - dateRight) div msPerDay
      else - ((dateRight - dateLeft) div msPerDay))"

text \<open>
  \<open>format(date, 'yyyy-MM-dd')\<close> names the calendar day of an instant; the model keeps the
  day's number (days since the epoch), which identifies the same day.
\<close>

definition dateKey :: "timestamp \<Rightarrow> int" where
  "dateKey t = t div msPerDay"

section \<open>Dashboard: the current streak\<close>

text \<open>
  \<open>fetchDashboardStats\<close> receives the completed workouts ordered by \<open>completed_at\<close>
  descending; only \<open>completed_at\<close> matters for the streak, so a workout is its completion
  instant. A null query result behaves as the empty list (the guard
  \<open>workouts && workouts.length > 0\<close>).

  The \<open>for\<close> loop carries \<open>(currentStreak, checkDate)\<close>; \<open>break\<close> returns the state as
  it is.
\<close>

fun streak_loop :: "timestamp list \<Rightarrow> nat \<times> timestamp \<Rightarrow> nat \<times> timestamp" where
  "streak_loop [] (currentStreak, checkDate) = (currentStreak, checkDate)"
| "streak_loop (workoutDate # rest) (currentStreak, checkDate) =
     (let daysDiff = differenceInDays checkDate workoutDate
      in if daysDiff \<le> 1 then streak_loop rest (currentStreak + 1, workoutDate)
         else (currentStreak, checkDate))"

definition currentStreak :: "timestamp \<Rightarrow> timestamp list \<Rightarrow> nat" where
  "currentStreak today workouts =
     (if length workouts > 0 then fst (streak_loop workouts (0, today)) else 0)"


text \<open>The number of distinct calendar days that carry a completed workout.\<close>

definition workout_days :: "timestamp list \<Rightarrow> nat" where
  "workout_days workouts = length (remdups (map dateKey workouts))"

section \<open>Settings: the unit preference\<close>

text \<open>
  \<open>type UnitPreference = 'kg' | 'lbs'\<close> exists at compile time only; at run time the
  preference is whatever string the state holds, so the model keeps a string.
  \<open>localStorage.getItem\<close> returns the stored string or null.
\<close>

type_synonym UnitPreference = string

text \<open>\<open>a || b\<close> on a string that may be null or undefined: the empty string is falsy too.\<close>

definition or_else :: "string option \<Rightarrow> string \<Rightarrow> string" where
  "or_else a b = (case a of None \<Rightarrow> b | Some s \<Rightarrow> if s = [] then b else s)"

text \<open>
  The initialiser of \<open>useState\<close> in \<open>SettingsProvider\<close>; \<open>hasWindow\<close> is
  \<open>typeof window !== 'undefined'\<close> and \<open>stored\<close> the value under the key \<open>gym-unit\<close>.
\<close>

definition initUnit :: "bool \<Rightarrow> string option \<Rightarrow> UnitPreference" where
  "initUnit hasWindow stored =
     (if hasWindow then (let saved = stored in or_else saved ''kg'') else ''kg'')"

text \<open>
  \<open>Math.round\<close>: the nearest integer, a half rounding towards plus infinity. The
  operation itself is exact.
\<close>

definition Math_round :: "rat \<Rightarrow> int" where
  "Math_round x = \<lfloor>x + 1 / 2\<rfloor>"









section \<open>Progress: the rows fetched\<close>

text \<open>
  The query of \<open>fetchProgressData\<close> returns the user's completed workouts, most recent
  first, each with its \<open>workout_exercises\<close>, and each of those with the joined exercise
  name and its \<open>sets(weight, reps)\<close>. Both numbers of a set may be null. \<open>we_exercise\<close> is
  \<open>we.exercise?.name\<close>: \<open>None\<close> when the joined exercise or its name is missing. A null
  list (\<open>workouts?.\<close>, \<open>(we.sets as any[])?.\<close>) is skipped by the code just as an empty one.
\<close>

record SetRow =
  weight :: "rat option"
  reps :: "rat option"

record WorkoutExercise =
  we_exercise :: "string option"
  we_sets :: "SetRow list"

record Workout =
  completed_at :: timestamp
  workout_exercises :: "WorkoutExercise list"

text \<open>\<open>x || 0\<close> on a number that may be null.\<close>

definition or_zero :: "rat option \<Rightarrow> rat" where
  "or_zero x = (case x of None \<Rightarrow> 0 | Some v \<Rightarrow> if v = 0 then 0 else v)"

section \<open>Progress: weekly volume\<close>

text \<open>
  The body of the innermost \<open>forEach\<close>:
  \<open>weekVolume += (set.weight || 0) * (set.reps || 0)\<close>.
\<close>

definition add_set_volume :: "SetRow \<Rightarrow> rat \<Rightarrow> rat" where
  "add_set_volume s weekVolume = weekVolume + or_zero (weight s) * or_zero (reps s)"

definition add_workout_volume :: "timestamp \<Rightarrow> timestamp \<Rightarrow> Workout \<Rightarrow> rat \<Rightarrow> rat" where
  "add_workout_volume weekStart weekEnd workout weekVolume =
     (let workoutDate = completed_at workout
      in if workoutDate \<ge> weekStart \<and> workoutDate < weekEnd
         then fold (\<lambda>we. fold add_set_volume (we_sets we)) (workout_exercises workout) weekVolume
         else weekVolume)"

text \<open>
  One entry of the series: \<open>date\<close> is \<open>format(weekStart, 'MMM d')\<close>, kept here as the
  instant \<open>weekStart\<close> it prints; \<open>volume\<close> is \<open>Math.round(weekVolume)\<close>.
\<close>

record VolumePoint =
  vp_date :: timestamp
  vp_volume :: int

text \<open>
  One pass of the loop \<open>for (let i = 7; i >= 0; i--)\<close>, with \<open>now\<close> the value of
  \<open>new Date()\<close> (read once for the whole computation).
\<close>

definition week_step :: "timestamp \<Rightarrow> Workout list \<Rightarrow> int \<Rightarrow> VolumePoint list \<Rightarrow> VolumePoint list" where
  "week_step now workouts i weeklyVolume =
     (let weekStart = subDays now (i * 7);
          weekEnd = subDays now ((i - 1) * 7);
          weekVolume = fold (add_workout_volume weekStart weekEnd) workouts 0
      in if i < 7
         then weeklyVolume @ [\<lparr>vp_date = weekStart, vp_volume = Math_round weekVolume\<rparr>]
         else weeklyVolume)"

text \<open>The loop itself: \<open>i\<close> runs from its start value down to 0.\<close>

fun week_loop :: "timestamp \<Rightarrow> Workout list \<Rightarrow> nat \<Rightarrow> VolumePoint list \<Rightarrow> VolumePoint list" where
  "week_loop now workouts 0 weeklyVolume = week_step now workouts 0 weeklyVolume"
| "week_loop now workouts (Suc i) weeklyVolume =
     week_loop now workouts i (week_step now workouts (int (Suc i)) weeklyVolume)"

definition weeklyVolume :: "timestamp \<Rightarrow> Workout list \<Rightarrow> VolumePoint list" where
  "weeklyVolume now workouts = week_loop now workouts 7 []"

section \<open>Progress: personal records\<close>

text \<open>
  \<open>prMap\<close> is a JavaScript \<open>Map\<close>: it iterates in insertion order, and \<open>set\<close> on a key
  that is present replaces the value where it stands. The value is \<open>{weight, date}\<close>, a
  pair here; \<open>date\<close> is the workout's \<open>completed_at\<close>.
\<close>

type_synonym prMap = "(string \<times> (rat \<times> timestamp)) list"

fun map_set :: "'k \<Rightarrow> 'v \<Rightarrow> ('k \<times> 'v) list \<Rightarrow> ('k \<times> 'v) list" where
  "map_set k v [] = [(k, v)]"
| "map_set k v ((k', v') # m) =
     (if k' = k then (k, v) # m else (k', v') # map_set k v m)"

definition map_get :: "('k \<times> 'v) list \<Rightarrow> 'k \<Rightarrow> 'v option" where
  "map_get m k = map_of m k"

text \<open>The body of \<open>(we.sets as any[])?.forEach(set => ...)\<close>.\<close>

definition pr_set :: "string \<Rightarrow> timestamp \<Rightarrow> SetRow \<Rightarrow> prMap \<Rightarrow> prMap" where
  "pr_set exerciseName completed s prMap =
     (let w = or_zero (weight s); existing = map_get prMap exerciseName
      in case existing of
           None \<Rightarrow> map_set exerciseName (w, completed) prMap
         | Some e \<Rightarrow> if w > fst e then map_set exerciseName (w, completed) prMap else prMap)"

text \<open>
  The body of \<open>workout_exercises.forEach(we => ...)\<close>; \<open>if (!exerciseName) return\<close> skips
  a missing and an empty name.
\<close>

definition pr_exercise_entry :: "timestamp \<Rightarrow> WorkoutExercise \<Rightarrow> prMap \<Rightarrow> prMap" where
  "pr_exercise_entry completed we prMap =
     (case we_exercise we of
        None \<Rightarrow> prMap
      | Some exerciseName \<Rightarrow>
          if exerciseName = [] then prMap
          else fold (pr_set exerciseName completed) (we_sets we) prMap)"

definition pr_workout :: "Workout \<Rightarrow> prMap \<Rightarrow> prMap" where
  "pr_workout workout prMap =
     fold (pr_exercise_entry (completed_at workout)) (workout_exercises workout) prMap"

definition build_prMap :: "Workout list \<Rightarrow> prMap" where
  "build_prMap workouts = fold pr_workout workouts []"

record PersonalRecord =
  pr_exercise :: string
  pr_weight :: rat
  pr_date :: timestamp

text \<open>
  \<open>Array.from(prMap.entries()).map(...)\<close>, then \<open>sort((a, b) => b.weight - a.weight)\<close>
  (a stable sort, heaviest first), then \<open>slice(0, 10)\<close>.
\<close>

definition pr_entries :: "Workout list \<Rightarrow> PersonalRecord list" where
  "pr_entries workouts =
     map (\<lambda>(exercise, dat). \<lparr>pr_exercise = exercise, pr_weight = fst dat, pr_date = snd dat\<rparr>)
       (build_prMap workouts)"

definition personalRecords :: "Workout list \<Rightarrow> PersonalRecord list" where
  "personalRecords workouts = take 10 (sort_key (\<lambda>r. - pr_weight r) (pr_entries workouts))"

text \<open>
  For the statements: every set the traversal meets under a usable exercise name, in
  traversal order, as (name, weight with null as 0, completion date of its workout).
\<close>

definition logged_sets :: "Workout list \<Rightarrow> (string \<times> rat \<times> timestamp) list" where
  "logged_sets workouts =
     concat (map (\<lambda>workout.
       concat (map (\<lambda>we.
         case we_exercise we of
           None \<Rightarrow> []
         | Some n \<Rightarrow> if n = [] then []
                     else map (\<lambda>s. (n, or_zero (weight s), completed_at workout)) (we_sets we))
         (workout_exercises workout)))
       workouts)"

text \<open>
  The record an exercise name should get: the greatest weight among its logged sets and
  the date of the first set, in traversal order, that reaches it; none without a set.
\<close>

definition record_of :: "string \<Rightarrow> Workout list \<Rightarrow> (rat \<times> timestamp) option" where
  "record_of n workouts =
     (let es = map snd (filter (\<lambda>e. fst e = n) (logged_sets workouts))
      in if es = [] then None
         else let best = Max (set (map fst es))
              in Some (best, snd (hd (filter (\<lambda>e. fst e = best) es))))"

text \<open>
  Auxiliary views for the proofs: one step of the traversal on a logged set, the sets
  logged under one exercise entry, and the effect of a step on the record of one name.
\<close>

definition pr_logged :: "string \<times> rat \<times> timestamp \<Rightarrow> prMap \<Rightarrow> prMap" where
  "pr_logged e m =
     (case map_of m (fst e) of
        None \<Rightarrow> map_set (fst e) (snd e) m
      | Some b \<Rightarrow> if fst (snd e) > fst b then map_set (fst e) (snd e) m else m)"

definition improve :: "rat \<times> timestamp \<Rightarrow> (rat \<times> timestamp) option \<Rightarrow> (rat \<times> timestamp) option" where
  "improve x acc = (case acc of None \<Rightarrow> Some x | Some b \<Rightarrow> if fst x > fst b then Some x else Some b)"

definition logged_entry :: "timestamp \<Rightarrow> WorkoutExercise \<Rightarrow> (string \<times> rat \<times> timestamp) list" where
  "logged_entry c we = (case we_exercise we of
           None \<Rightarrow> []
         | Some n \<Rightarrow> if n = [] then []
                     else map (\<lambda>s. (n, or_zero (weight s), c)) (we_sets we))"

text \<open>A workout with one exercise entry holding one set, for the worked examples.\<close>

definition single_set_workout :: "timestamp \<Rightarrow> string \<Rightarrow> rat \<Rightarrow> rat \<Rightarrow> Workout" where
  "single_set_workout t name w r =
     \<lparr>completed_at = t, workout_exercises =
        [\<lparr>we_exercise = Some name, we_sets = [\<lparr>weight = Some w, reps = Some r\<rparr>]\<rparr>]\<rparr>"

text \<open>
  The sets logged by one workout, and whether a workout holds at least one set under an
  exercise name.
\<close>

definition logged_workout :: "Workout \<Rightarrow> (string \<times> rat \<times> timestamp) list" where
  "logged_workout w = concat (map (logged_entry (completed_at w)) (workout_exercises w))"

definition logs_exercise :: "string \<Rightarrow> Workout \<Rightarrow> bool" where
  "logs_exercise n w =
     list_ex (\<lambda>we. we_exercise we = Some n \<and> we_sets we \<noteq> []) (workout_exercises w)"

text \<open>
  Sample data: three workouts, most recent first, with Bench Press at 100 and 120 and a
  Squat entry whose only set has no weight; and a workout whose Squat entry has no sets.
\<close>

definition example_workouts :: "Workout list" where
  "example_workouts =
     [single_set_workout 1728043200000 ''Bench Press'' 100 8,
      \<lparr>completed_at = 1727956800000, workout_exercises =
         [\<lparr>we_exercise = Some ''Squat'', we_sets = [\<lparr>weight = None, reps = Some 10\<rparr>]\<rparr>]\<rparr>,
      single_set_workout 1727784000000 ''Bench Press'' 120 5]"

definition workout_without_sets :: Workout where
  "workout_without_sets =
     \<lparr>completed_at = 1728043200000, workout_exercises =
        [\<lparr>we_exercise = Some ''Squat'', we_sets = []\<rparr>]\<rparr>"

section \<open>Exercise details: history and statistics\<close>

text \<open>
  \<open>fetchHistory\<close> (ExerciseDetails in Templates.tsx) reads every \<open>workout_exercises\<close> row
  of one exercise with the joined workout \<open>(completed_at, user_id)\<close>, which may be
  missing, and the row's \<open>sets(weight, reps)\<close>. \<open>completed_at\<close> is null for a workout in
  progress.
\<close>

record HistoryWorkout =
  hw_completed_at :: "timestamp option"
  hw_user_id :: string

record HistoryEntry =
  he_id :: string
  he_workout :: "HistoryWorkout option"
  he_sets :: "SetRow list"

text \<open>\<open>workout?.completed_at\<close> and \<open>workout?.user_id\<close>.\<close>

definition entry_completed :: "HistoryEntry \<Rightarrow> timestamp option" where
  "entry_completed we = (case he_workout we of None \<Rightarrow> None | Some w \<Rightarrow> hw_completed_at w)"

definition entry_user :: "HistoryEntry \<Rightarrow> string option" where
  "entry_user we = (case he_workout we of None \<Rightarrow> None | Some w \<Rightarrow> Some (hw_user_id w))"

text \<open>
  The filter predicate \<open>workout?.user_id === user.id && workout?.completed_at\<close>.
\<close>

definition qualifies :: "string \<Rightarrow> HistoryEntry \<Rightarrow> bool" where
  "qualifies uid we = (entry_user we = Some uid \<and> entry_completed we \<noteq> None)"

text \<open>
  The inner \<open>sets.forEach\<close> on the state
  \<open>(maxWeight, dayMaxWeight, dayVolume, totalSets)\<close>.
\<close>

definition history_set :: "SetRow \<Rightarrow> rat \<times> rat \<times> rat \<times> nat \<Rightarrow> rat \<times> rat \<times> rat \<times> nat" where
  "history_set s st =
     (case st of (maxWeight, dayMaxWeight, dayVolume, totalSets) \<Rightarrow>
        let w = or_zero (weight s); r = or_zero (reps s)
        in (if w > maxWeight then w else maxWeight,
            if w > dayMaxWeight then w else dayMaxWeight,
            dayVolume + w * r,
            totalSets + 1))"

text \<open>
  \<open>historyMap\<close> is a \<open>Map\<close> from the \<open>yyyy-MM-dd\<close> key of a day to
  \<open>{maxWeight, totalVolume}\<close>, a pair here.
\<close>

type_synonym historyMap = "(int \<times> (rat \<times> rat)) list"

text \<open>
  The outer \<open>userWorkouts.forEach\<close> on the state \<open>(maxWeight, totalSets, historyMap)\<close>.
  Every entry that passed the filter has a completion instant; the first case cannot
  occur there.
\<close>

definition history_step :: "HistoryEntry \<Rightarrow> rat \<times> nat \<times> historyMap \<Rightarrow> rat \<times> nat \<times> historyMap" where
  "history_step we st =
     (case st of (maxWeight, totalSets, historyMap) \<Rightarrow>
        case entry_completed we of
          None \<Rightarrow> st
        | Some completed \<Rightarrow>
            let key = dateKey completed;
                (maxWeight', dayMaxWeight, dayVolume, totalSets') =
                   fold history_set (he_sets we) (maxWeight, 0, 0, totalSets);
                existing = (case map_get historyMap key of None \<Rightarrow> (0, 0) | Some x \<Rightarrow> x)
            in (maxWeight', totalSets',
                map_set key (max (fst existing) dayMaxWeight, snd existing + dayVolume)
                  historyMap))"

record ExerciseStats =
  maxWeight :: rat
  totalSets :: nat
  timesPerformed :: nat

record HistoryPoint =
  hp_date :: int
  hp_maxWeight :: rat
  hp_totalVolume :: rat

text \<open>
  \<open>new Date(a.date).getTime()\<close> for a \<open>yyyy-MM-dd\<close> key: midnight of that day.
\<close>

definition key_time :: "int \<Rightarrow> timestamp" where
  "key_time d = d * msPerDay"

text \<open>\<open>xs.slice(-n)\<close>: the last \<open>n\<close> elements, all of them when there are fewer.\<close>

definition slice_last :: "nat \<Rightarrow> 'a list \<Rightarrow> 'a list" where
  "slice_last n xs = drop (length xs - n) xs"

text \<open>
  \<open>fetchHistory\<close>: the statistics passed to \<open>setStats\<close> and the series passed to
  \<open>setHistory\<close>.
\<close>

definition fetchHistory :: "string \<Rightarrow> HistoryEntry list \<Rightarrow> ExerciseStats \<times> HistoryPoint list" where
  "fetchHistory uid workoutExercises =
     (let userWorkouts = filter (qualifies uid) workoutExercises;
          (maxWeight', totalSets', historyMap) = fold history_step userWorkouts (0, 0, []);
          stats = \<lparr>maxWeight = maxWeight', totalSets = totalSets',
                   timesPerformed = length userWorkouts\<rparr>;
          historyArray =
            slice_last 10
              (sort_key (\<lambda>h. key_time (hp_date h))
                 (map (\<lambda>(date, dat). \<lparr>hp_date = date, hp_maxWeight = fst dat,
                                       hp_totalVolume = snd dat\<rparr>) historyMap))
      in (stats, historyArray))"

text \<open>
  For the statements: the calendar day of an entry, the days that carry a qualifying
  entry, and all sets logged on one day in qualifying entries.
\<close>

definition entry_day :: "HistoryEntry \<Rightarrow> int option" where
  "entry_day we = map_option dateKey (entry_completed we)"

definition qualifying_days :: "string \<Rightarrow> HistoryEntry list \<Rightarrow> int list" where
  "qualifying_days uid rows = List.map_filter entry_day (filter (qualifies uid) rows)"

definition day_sets :: "string \<Rightarrow> HistoryEntry list \<Rightarrow> int \<Rightarrow> SetRow list" where
  "day_sets uid rows d =
     concat (map he_sets (filter (\<lambda>we. qualifies uid we \<and> entry_day we = Some d) rows))"

definition set_weights :: "SetRow list \<Rightarrow> rat list" where
  "set_weights ss = map (\<lambda>s. or_zero (weight s)) ss"

definition sets_volume :: "SetRow list \<Rightarrow> rat" where
  "sets_volume ss = sum_list (map (\<lambda>s. or_zero (weight s) * or_zero (reps s)) ss)"

text \<open>
  Sample rows: user \<open>u1\<close> did the exercise in one completed workout as two separate
  entries, and once more on the next day; a row of another user and a row of a workout
  in progress do not qualify.
\<close>

definition example_history :: "HistoryEntry list" where
  "example_history =
     [\<lparr>he_id = ''we1'',
       he_workout = Some \<lparr>hw_completed_at = Some 1728036000000, hw_user_id = ''u1''\<rparr>,
       he_sets = [\<lparr>weight = Some 100, reps = Some 5\<rparr>, \<lparr>weight = Some 110, reps = Some 3\<rparr>]\<rparr>,
      \<lparr>he_id = ''we2'',
       he_workout = Some \<lparr>hw_completed_at = Some 1728036000000, hw_user_id = ''u1''\<rparr>,
       he_sets = [\<lparr>weight = Some 90, reps = Some 8\<rparr>]\<rparr>,
      \<lparr>he_id = ''we3'',
       he_workout = Some \<lparr>hw_completed_at = Some 1728122400000, hw_user_id = ''u1''\<rparr>,
       he_sets = [\<lparr>weight = Some 120, reps = None\<rparr>]\<rparr>,
      \<lparr>he_id = ''we4'',
       he_workout = Some \<lparr>hw_completed_at = Some 1728122400000, hw_user_id = ''u2''\<rparr>,
       he_sets = [\<lparr>weight = Some 200, reps = Some 1\<rparr>]\<rparr>,
      \<lparr>he_id = ''we5'',
       he_workout = Some \<lparr>hw_completed_at = None, hw_user_id = ''u1''\<rparr>,
       he_sets = [\<lparr>weight = Some 300, reps = Some 1\<rparr>]\<rparr>]"

text \<open>
  Auxiliary view for the proofs: what one qualifying entry does to the pair stored for
  its day.
\<close>

definition day_merge :: "HistoryEntry \<Rightarrow> (rat \<times> rat) option \<Rightarrow> (rat \<times> rat) option" where
  "day_merge we acc =
     (let existing = (case acc of None \<Rightarrow> (0, 0) | Some x \<Rightarrow> x)
      in Some (max (fst existing) (Max (insert 0 (set (set_weights (he_sets we))))),
               snd existing + sets_volume (he_sets we)))"

text \<open>The \<open>historyMap\<close> at the end of the loop, and its entries as points.\<close>

definition history_map :: "string \<Rightarrow> HistoryEntry list \<Rightarrow> historyMap" where
  "history_map uid rows = snd (snd (fold history_step (filter (qualifies uid) rows) (0, 0, [])))"

definition history_points :: "string \<Rightarrow> HistoryEntry list \<Rightarrow> HistoryPoint list" where
  "history_points uid rows =
     map (\<lambda>(date, dat). \<lparr>hp_date = date, hp_maxWeight = fst dat, hp_totalVolume = snd dat\<rparr>)
       (history_map uid rows)"

text \<open>
  One completed workout of user \<open>u1\<close> in which the exercise was added twice: two
  \<open>workout_exercises\<close> rows joined to the same workout.
\<close>

definition same_workout_twice :: "HistoryEntry list" where
  "same_workout_twice =
     [\<lparr>he_id = ''we1'',
       he_workout = Some \<lparr>hw_completed_at = Some 1728036000000, hw_user_id = ''u1''\<rparr>,
       he_sets = [\<lparr>weight = Some 100, reps = Some 5\<rparr>]\<rparr>,
      \<lparr>he_id = ''we2'',
       he_workout = Some \<lparr>hw_completed_at = Some 1728036000000, hw_user_id = ''u1''\<rparr>,
       he_sets = [\<lparr>weight = Some 90, reps = Some 8\<rparr>]\<rparr>]"

section \<open>Active workout: the sets of an exercise entry\<close>

text \<open>
  The editor state \<open>exercises\<close> of ActiveWorkout.tsx: a list of \<open>WorkoutExercise\<close>
  values, each with its \<open>SetData\<close> list.
\<close>

record SetData =
  sd_id :: string
  set_number :: int
  sd_weight :: "rat option"
  sd_reps :: "rat option"
  sd_rpe :: "rat option"
  is_completed :: bool

record Exercise =
  ex_id :: string
  ex_name :: string
  muscle_group :: string

record ActiveWorkoutExercise =
  awe_id :: string
  awe_exercise :: Exercise
  awe_sets :: "SetData list"

text \<open>
  The row that \<open>insert({workout_exercise_id, set_number}).select().single()\<close> returns:
  the store chooses the id; the other columns take their defaults.
\<close>

definition inserted_set :: "string \<Rightarrow> int \<Rightarrow> SetData" where
  "inserted_set newId n =
     \<lparr>sd_id = newId, set_number = n, sd_weight = None, sd_reps = None, sd_rpe = None,
      is_completed = False\<rparr>"

text \<open>
  \<open>addSet(workoutExerciseId, currentSets)\<close>. \<open>stored\<close> is the id of the inserted row, or
  \<open>None\<close> when the insert fails: the error is thrown, caught and logged, the state stays.
\<close>

definition addSet ::
  "string option \<Rightarrow> string \<Rightarrow> SetData list \<Rightarrow> ActiveWorkoutExercise list \<Rightarrow> ActiveWorkoutExercise list" where
  "addSet stored workoutExerciseId currentSets exercises =
     (case stored of
        None \<Rightarrow> exercises
      | Some newId \<Rightarrow>
          let dat = inserted_set newId (int (length currentSets) + 1)
          in map (\<lambda>we. if awe_id we = workoutExerciseId
                        then we\<lparr>awe_sets := awe_sets we @ [dat]\<rparr> else we) exercises)"

text \<open>\<open>deleteSet(workoutExerciseId, setId)\<close>: the result of the delete is not inspected.\<close>

definition deleteSet :: "string \<Rightarrow> string \<Rightarrow> ActiveWorkoutExercise list \<Rightarrow> ActiveWorkoutExercise list" where
  "deleteSet workoutExerciseId setId exercises =
     map (\<lambda>we. if awe_id we = workoutExerciseId
                then we\<lparr>awe_sets := filter (\<lambda>s. sd_id s \<noteq> setId) (awe_sets we)\<rparr> else we)
       exercises"

text \<open>The invariant: set numbers are unique and dense, starting at 1.\<close>

definition dense_set_numbers :: "SetData list \<Rightarrow> bool" where
  "dense_set_numbers sets =
     (distinct (map set_number sets) \<and> set (map set_number sets) = {1..int (length sets)})"

text \<open>The sets of the entry with a given id (the first one, as ids are unique).\<close>

definition sets_of :: "string \<Rightarrow> ActiveWorkoutExercise list \<Rightarrow> SetData list" where
  "sets_of workoutExerciseId exercises =
     (case filter (\<lambda>we. awe_id we = workoutExerciseId) exercises of
        [] \<Rightarrow> [] | we # _ \<Rightarrow> awe_sets we)"

text \<open>An entry with three sets, numbered 1, 2 and 3.\<close>

definition three_sets :: "ActiveWorkoutExercise list" where
  "three_sets =
     [\<lparr>awe_id = ''we1'',
       awe_exercise = \<lparr>ex_id = ''e1'', ex_name = ''Bench Press'', muscle_group = ''Chest''\<rparr>,
       awe_sets = [inserted_set ''s1'' 1, inserted_set ''s2'' 2, inserted_set ''s3'' 3]\<rparr>]"

section \<open>Properties of the streak\<close>












text \<open>
  C3. The streak is meant to count workout days, so it should never exceed the number of
  distinct calendar days that carry a completed workout. The loop counts workouts instead:
  with the clock at 12:00 of day 20000 and two workouts completed at 10:00 and 09:00 of
  that same day, both are within one day of the check date, the streak is 2 and the
  dashboard shows "2 days" for a single workout day.
\<close>

theorem C3_same_day_workouts_counted_twice:
  "currentStreak (20000 * msPerDay + 12 * msPerHour)
     [20000 * msPerDay + 10 * msPerHour, 20000 * msPerDay + 9 * msPerHour] = 2
   \<and> workout_days [20000 * msPerDay + 10 * msPerHour, 20000 * msPerDay + 9 * msPerHour] = 1"
  by (simp add: currentStreak_def workout_days_def dateKey_def differenceInDays_def
      msPerDay_def msPerHour_def)

section \<open>Properties of the unit preference\<close>













text \<open>
  C9. The stored value is not validated: the preference starts as \<open>kg\<close> when nothing (or
  the empty string) is stored or there is no window, and as the stored string itself
  otherwise. It therefore lies in \<open>{kg, lbs}\<close> exactly when the stored value is absent,
  empty, \<open>kg\<close> or \<open>lbs\<close>; it is \<open>lbs\<close> when \<open>lbs\<close> is stored.
\<close>

theorem C9_initUnit_keeps_stored_string:
  "initUnit hasWindow None = ''kg''
   \<and> initUnit hasWindow (Some []) = ''kg''
   \<and> initUnit hasWindow (Some ''kg'') = ''kg''
   \<and> initUnit True (Some ''lbs'') = ''lbs''
   \<and> initUnit False stored = ''kg''
   \<and> (s \<noteq> [] \<longrightarrow> initUnit True (Some s) = s)
   \<and> (initUnit True stored \<in> {''kg'', ''lbs''}
        \<longleftrightarrow> stored \<in> {None, Some [], Some ''kg'', Some ''lbs''})"
  by (cases stored) (auto simp add: initUnit_def or_else_def)

theorem C9_initUnit_witness:
  "initUnit True (Some ''lbs'') = ''lbs'' \<and> initUnit True (Some ''kg'') = ''kg''
   \<and> initUnit True None = ''kg''"
  using C9_initUnit_keeps_stored_string [of True "Some ''lbs''" "''lbs''"]
    C9_initUnit_keeps_stored_string [of True "Some ''kg''" "''kg''"]
  by simp

theorem C9_invalid_stored_value_counterexample:
  "initUnit True (Some ''stone'') = ''stone''
   \<and> initUnit True (Some ''stone'') \<noteq> ''kg''
   \<and> initUnit True (Some ''stone'') \<noteq> ''lbs''"
  by (simp add: initUnit_def or_else_def)

section \<open>Properties of the weekly volume\<close>

lemma length_week_step:
  "length (week_step now ws i acc) = (if i < 7 then Suc (length acc) else length acc)"
  by (simp add: week_step_def Let_def)

lemma length_weeklyVolume: "length (weeklyVolume now ws) = 7"
  by (simp add: weeklyVolume_def eval_nat_numeral length_week_step)

lemma weeklyVolume_dates:
  "map vp_date (weeklyVolume now ws) = map (\<lambda>i. subDays now (i * 7)) [6, 5, 4, 3, 2, 1, 0]"
  by (simp add: weeklyVolume_def eval_nat_numeral week_step_def Let_def)

text \<open>
  C2. The series should leave out the current, incomplete week. The loop leaves out its
  first pass instead (\<open>i = 7\<close>, the oldest week) and keeps the passes \<open>i = 1\<close> (the seven
  days up to now) and \<open>i = 0\<close> (the seven days from now on): a set of 50 x 10 completed
  yesterday adds 500 to the sixth entry, one completed at the instant \<open>now\<close> adds 500 to
  the seventh, and one completed 45 days ago, inside the trailing eight weeks, is counted
  nowhere.
\<close>

theorem C2_current_week_kept_oldest_week_dropped:
  "map vp_volume (weeklyVolume now [single_set_workout (subDays now 1) ''Bench Press'' 50 10])
     = [0, 0, 0, 0, 0, 500, 0]
   \<and> map vp_volume (weeklyVolume now [single_set_workout now ''Bench Press'' 50 10])
     = [0, 0, 0, 0, 0, 0, 500]
   \<and> map vp_volume (weeklyVolume now [single_set_workout (subDays now 45) ''Bench Press'' 50 10])
     = [0, 0, 0, 0, 0, 0, 0]
   \<and> map vp_date (weeklyVolume now workouts)
     = [subDays now 42, subDays now 35, subDays now 28, subDays now 21, subDays now 14,
        subDays now 7, now]"
  by (simp add: weeklyVolume_def eval_nat_numeral week_step_def Let_def single_set_workout_def
      add_workout_volume_def add_set_volume_def or_zero_def subDays_def msPerDay_def
      Math_round_def floor_eq_iff)

section \<open>Properties of the personal records\<close>

lemma map_of_map_set: "map_of (map_set k v m) = (map_of m)(k \<mapsto> v)"
  by (induction m) (auto simp add: fun_eq_iff)

lemma keys_map_set:
  "map fst (map_set k v m) = (if k \<in> fst ` set m then map fst m else map fst m @ [k])"
  by (induction m) (auto simp add: rev_image_eqI)

lemma distinct_map_set: "distinct (map fst m) \<Longrightarrow> distinct (map fst (map_set k v m))"
  by (simp add: keys_map_set)

lemma pr_set_logged: "pr_set n c s m = pr_logged (n, or_zero (weight s), c) m"
  by (simp add: pr_set_def pr_logged_def map_get_def Let_def split: option.splits)

lemma fold_pr_set_logged:
  "fold (pr_set n c) ss m = fold pr_logged (map (\<lambda>s. (n, or_zero (weight s), c)) ss) m"
  by (induction ss arbitrary: m) (simp_all add: pr_set_logged)

lemma pr_exercise_entry_logged:
  "pr_exercise_entry c we m = fold pr_logged (logged_entry c we) m"
  by (simp add: pr_exercise_entry_def logged_entry_def fold_pr_set_logged split: option.splits)

lemma fold_pr_exercise_entry_logged:
  "fold (pr_exercise_entry c) wes m = fold pr_logged (concat (map (logged_entry c) wes)) m"
  by (induction wes arbitrary: m) (simp_all add: pr_exercise_entry_logged)

lemma logged_sets_alt:
  "logged_sets ws = concat (map (\<lambda>w. concat (map (logged_entry (completed_at w)) (workout_exercises w))) ws)"
  unfolding logged_sets_def logged_entry_def by (rule refl)

lemma fold_pr_workout_logged:
  "fold pr_workout ws m = fold pr_logged (logged_sets ws) m"
  by (induction ws arbitrary: m)
    (simp_all add: logged_sets_alt pr_workout_def fold_pr_exercise_entry_logged)

lemma build_prMap_logged: "build_prMap ws = fold pr_logged (logged_sets ws) []"
  by (simp add: build_prMap_def fold_pr_workout_logged)

lemma map_of_pr_logged:
  "map_of (pr_logged e m) n = (if fst e = n then improve (snd e) (map_of m n) else map_of m n)"
  by (auto simp add: pr_logged_def improve_def map_of_map_set split: option.splits)

lemma map_of_fold_pr_logged:
  "map_of (fold pr_logged es m) n
     = fold improve (map snd (filter (\<lambda>e. fst e = n) es)) (map_of m n)"
  by (induction es arbitrary: m) (simp_all add: map_of_pr_logged)

lemma distinct_pr_logged: "distinct (map fst m) \<Longrightarrow> distinct (map fst (pr_logged e m))"
  by (simp add: pr_logged_def distinct_map_set split: option.splits)

lemma distinct_fold_pr_logged:
  "distinct (map fst m) \<Longrightarrow> distinct (map fst (fold pr_logged es m))"
  by (induction es arbitrary: m) (simp_all add: distinct_pr_logged)

lemma improve_Some:
  "improve x (Some b) = (if fst x > fst b then Some x else Some b)"
  by (simp add: improve_def)

lemma improve_None: "improve x None = Some x"
  by (simp add: improve_def)

lemma fold_improve_best:
  "xs \<noteq> [] \<Longrightarrow> fold improve xs None
     = Some (Max (fst ` set xs), snd (hd (filter (\<lambda>e. fst e = Max (fst ` set xs)) xs)))"
proof (induction xs rule: rev_induct)
  case Nil
  then show ?case by simp
next
  case (snoc x xs)
  show ?case
  proof (cases "xs = []")
    case True
    then show ?thesis by (simp add: improve_None)
  next
    case False
    define M where "M = Max (fst ` set xs)"
    define M' where "M' = Max (fst ` set (xs @ [x]))"
    have ih: "fold improve xs None = Some (M, snd (hd (filter (\<lambda>e. fst e = M) xs)))"
      using snoc.IH False by (simp add: M_def)
    have step: "fold improve (xs @ [x]) None
        = (if fst x > M then Some x else Some (M, snd (hd (filter (\<lambda>e. fst e = M) xs))))"
      by (simp add: ih improve_Some)
    have fin: "finite (fst ` set xs)" and ne: "fst ` set xs \<noteq> {}"
      using False by simp_all
    have Mmem: "M \<in> fst ` set xs"
      unfolding M_def using Max_in [OF fin ne] .
    have Mge: "\<forall>e \<in> set xs. fst e \<le> M"
      unfolding M_def using fin by simp
    have Max_snoc: "M' = max (fst x) M"
      unfolding M_def M'_def using fin ne by simp
    have goal: "fold improve (xs @ [x]) None
        = Some (M', snd (hd (filter (\<lambda>e. fst e = M') (xs @ [x]))))"
    proof (cases "fst x > M")
      case True
      have M': "M' = fst x"
        using True unfolding Max_snoc by simp
      have none: "filter (\<lambda>e. fst e = fst x) xs = []"
        unfolding filter_empty_conv using True Mge by fastforce
      have "filter (\<lambda>e. fst e = M') (xs @ [x]) = [x]"
        unfolding M' using none by simp
      then show ?thesis
        unfolding step using True M' by simp
    next
      case False
      have M': "M' = M"
        using False unfolding Max_snoc by simp
      have some: "filter (\<lambda>e. fst e = M) xs \<noteq> []"
        unfolding filter_empty_conv using Mmem by fastforce
      have "hd (filter (\<lambda>e. fst e = M') (xs @ [x])) = hd (filter (\<lambda>e. fst e = M) xs)"
        unfolding M' using some by simp
      then show ?thesis
        unfolding step using False M' by simp
    qed
    show ?thesis
      using goal unfolding M'_def .
  qed
qed

lemma map_of_build_prMap: "map_of (build_prMap ws) n = record_of n ws"
proof -
  let ?es = "map snd (filter (\<lambda>e. fst e = n) (logged_sets ws))"
  have l: "map_of (build_prMap ws) n = fold improve ?es None"
    by (simp add: build_prMap_logged map_of_fold_pr_logged)
  show ?thesis
  proof (cases "?es = []")
    case True
    then show ?thesis
      unfolding l record_of_def Let_def by simp
  next
    case False
    show ?thesis
      unfolding l record_of_def Let_def set_map
      using False fold_improve_best [OF False] by simp
  qed
qed

lemma distinct_build_prMap: "distinct (map fst (build_prMap ws))"
  by (simp add: build_prMap_logged distinct_fold_pr_logged)

lemma keys_build_prMap: "fst ` set (build_prMap ws) = fst ` set (logged_sets ws)"
proof -
  have "n \<in> fst ` set (build_prMap ws) \<longleftrightarrow> n \<in> fst ` set (logged_sets ws)" for n
  proof -
    have "n \<in> fst ` set (build_prMap ws) \<longleftrightarrow> record_of n ws \<noteq> None"
      using map_of_eq_None_iff [of "build_prMap ws" n] by (simp add: map_of_build_prMap)
    also have "\<dots> \<longleftrightarrow> filter (\<lambda>e. fst e = n) (logged_sets ws) \<noteq> []"
      by (simp add: record_of_def Let_def)
    also have "\<dots> \<longleftrightarrow> n \<in> fst ` set (logged_sets ws)"
      by (auto simp add: filter_empty_conv)
    finally show ?thesis .
  qed
  then show ?thesis by blast
qed

lemma pr_entries_exercises: "map pr_exercise (pr_entries ws) = map fst (build_prMap ws)"
  by (simp add: pr_entries_def case_prod_beta comp_def)

lemma pr_entries_record:
  assumes "r \<in> set (pr_entries ws)"
  shows "record_of (pr_exercise r) ws = Some (pr_weight r, pr_date r)"
proof -
  obtain n dat where mem: "(n, dat) \<in> set (build_prMap ws)"
    and r: "r = \<lparr>pr_exercise = n, pr_weight = fst dat, pr_date = snd dat\<rparr>"
    using assms by (auto simp add: pr_entries_def)
  have "map_of (build_prMap ws) n = Some dat"
    using mem distinct_build_prMap by simp
  then show ?thesis
    by (simp add: r map_of_build_prMap)
qed

lemma record_of_pr_entries:
  assumes "record_of n ws = Some (w, d)"
  shows "\<lparr>pr_exercise = n, pr_weight = w, pr_date = d\<rparr> \<in> set (pr_entries ws)"
proof -
  have "map_of (build_prMap ws) n = Some (w, d)"
    using assms by (simp add: map_of_build_prMap)
  then have "(n, (w, d)) \<in> set (build_prMap ws)"
    by (rule map_of_SomeD)
  then show ?thesis
    by (force simp add: pr_entries_def)
qed

lemma personalRecords_subset: "set (personalRecords ws) \<subseteq> set (pr_entries ws)"
  using set_take_subset [of 10 "sort_key (\<lambda>r. - pr_weight r) (pr_entries ws)"]
  by (simp add: personalRecords_def)

lemma distinct_personalRecords: "distinct (map pr_exercise (personalRecords ws))"
proof -
  have "distinct (map pr_exercise (pr_entries ws))"
    by (simp add: pr_entries_exercises distinct_build_prMap)
  then have "distinct (map pr_exercise (sort_key (\<lambda>r. - pr_weight r) (pr_entries ws)))"
    by (simp add: distinct_map)
  then have "distinct (take 10 (map pr_exercise (sort_key (\<lambda>r. - pr_weight r) (pr_entries ws))))"
    by (rule distinct_take)
  then show ?thesis
    by (simp add: personalRecords_def take_map)
qed

lemma sorted_personalRecords:
  "sorted_wrt (\<lambda>a b. pr_weight a \<ge> pr_weight b) (personalRecords ws)"
proof -
  have "sorted (map (\<lambda>r. - pr_weight r) (sort_key (\<lambda>r. - pr_weight r) (pr_entries ws)))"
    by (rule sorted_sort_key)
  then have "sorted (take 10 (map (\<lambda>r. - pr_weight r) (sort_key (\<lambda>r. - pr_weight r) (pr_entries ws))))"
    by (rule sorted_wrt_take)
  then show ?thesis
    by (simp add: personalRecords_def take_map sorted_map)
qed

lemma length_personalRecords:
  "length (personalRecords ws) = min 10 (card (fst ` set (logged_sets ws)))"
proof -
  have "length (pr_entries ws) = length (map fst (build_prMap ws))"
    by (simp add: pr_entries_def)
  also have "\<dots> = card (set (map fst (build_prMap ws)))"
    using distinct_card [OF distinct_build_prMap] by simp
  also have "\<dots> = card (fst ` set (logged_sets ws))"
    by (simp add: keys_build_prMap)
  finally show ?thesis
    by (simp add: personalRecords_def min.commute)
qed

lemma take_sorted_top:
  assumes "sorted (map f xs)" and "x \<in> set xs" and "x \<notin> set (take n xs)"
  shows "length (take n xs) = n \<and> (\<forall>y \<in> set (take n xs). f y \<le> f x)"
proof -
  have x: "x \<in> set (drop n xs)"
    using assms(2,3) append_take_drop_id [of n xs] by (metis Un_iff set_append)
  then have "n < length xs"
    by (cases "n < length xs") simp_all
  then have len: "length (take n xs) = n" by simp
  have "sorted (map f (take n xs) @ map f (drop n xs))"
    using assms(1) by (simp flip: map_append)
  then have "\<forall>a \<in> set (map f (take n xs)). \<forall>b \<in> set (map f (drop n xs)). a \<le> b"
    by (simp add: sorted_append)
  then show ?thesis
    using x len by auto
qed

lemma personalRecords_top:
  assumes "record_of n ws = Some (w, d)"
  shows "\<lparr>pr_exercise = n, pr_weight = w, pr_date = d\<rparr> \<in> set (personalRecords ws)
    \<or> (length (personalRecords ws) = 10 \<and> (\<forall>r \<in> set (personalRecords ws). w \<le> pr_weight r))"
proof -
  let ?r = "\<lparr>pr_exercise = n, pr_weight = w, pr_date = d\<rparr>"
  let ?xs = "sort_key (\<lambda>r. - pr_weight r) (pr_entries ws)"
  have mem: "?r \<in> set ?xs"
    using record_of_pr_entries [OF assms] by simp
  show ?thesis
  proof (cases "?r \<in> set (take 10 ?xs)")
    case True
    then show ?thesis by (simp add: personalRecords_def)
  next
    case False
    have "length (take 10 ?xs) = 10 \<and> (\<forall>y \<in> set (take 10 ?xs). - pr_weight y \<le> - pr_weight ?r)"
      by (rule take_sorted_top [OF sorted_sort_key mem False])
    then show ?thesis
      by (simp add: personalRecords_def)
  qed
qed

lemma logged_sets_Nil: "logged_sets [] = []"
  by (simp add: logged_sets_def)

lemma logged_sets_Cons: "logged_sets (w # ws) = logged_workout w @ logged_sets ws"
  by (simp add: logged_sets_alt logged_workout_def)

lemma mem_logged_entry:
  "e \<in> set (logged_entry c we) \<longleftrightarrow>
     (\<exists>n s. we_exercise we = Some n \<and> n \<noteq> [] \<and> s \<in> set (we_sets we)
            \<and> e = (n, or_zero (weight s), c))"
proof (cases "we_exercise we")
  case None
  then show ?thesis by (simp add: logged_entry_def)
next
  case (Some m)
  show ?thesis
  proof (cases "m = []")
    case True
    then show ?thesis using Some by (simp add: logged_entry_def)
  next
    case False
    have "e \<in> set (logged_entry c we)
        \<longleftrightarrow> (\<exists>s \<in> set (we_sets we). e = (m, or_zero (weight s), c))"
      using Some False by (simp add: logged_entry_def image_iff)
    then show ?thesis
      using Some False by (simp add: Bex_def)
  qed
qed

lemma mem_logged_workout:
  "e \<in> set (logged_workout w) \<longleftrightarrow>
     (\<exists>we \<in> set (workout_exercises w). e \<in> set (logged_entry (completed_at w) we))"
  by (auto simp add: logged_workout_def)

lemma mem_logged_sets:
  "e \<in> set (logged_sets ws) \<longleftrightarrow> (\<exists>w \<in> set ws. e \<in> set (logged_workout w))"
  by (induction ws) (auto simp add: logged_sets_Nil logged_sets_Cons)

lemma logged_workout_date: "e \<in> set (logged_workout w) \<Longrightarrow> snd (snd e) = completed_at w"
  by (auto simp add: mem_logged_workout mem_logged_entry)

lemma logged_workout_name:
  assumes n: "n \<noteq> []"
  shows "(filter (\<lambda>e. fst e = n) (logged_workout w) \<noteq> []) = logs_exercise n w"
proof
  assume "filter (\<lambda>e. fst e = n) (logged_workout w) \<noteq> []"
  then obtain e where e: "e \<in> set (logged_workout w)" and fe: "fst e = n"
    unfolding filter_empty_conv by blast
  from e obtain we where we: "we \<in> set (workout_exercises w)"
    and el: "e \<in> set (logged_entry (completed_at w) we)"
    unfolding mem_logged_workout by blast
  from el obtain m s where "we_exercise we = Some m" and "s \<in> set (we_sets we)"
    and "e = (m, or_zero (weight s), completed_at w)"
    unfolding mem_logged_entry by blast
  then have "we_exercise we = Some n \<and> we_sets we \<noteq> []"
    using fe by auto
  then show "logs_exercise n w"
    unfolding logs_exercise_def list_ex_iff using we by blast
next
  assume "logs_exercise n w"
  then obtain we where we: "we \<in> set (workout_exercises w)"
    and nm: "we_exercise we = Some n" and ne: "we_sets we \<noteq> []"
    unfolding logs_exercise_def list_ex_iff by blast
  from ne obtain s where s: "s \<in> set (we_sets we)"
    by (cases "we_sets we") auto
  have "(n, or_zero (weight s), completed_at w) \<in> set (logged_entry (completed_at w) we)"
    unfolding mem_logged_entry using nm n s by blast
  then have "(n, or_zero (weight s), completed_at w) \<in> set (logged_workout w)"
    unfolding mem_logged_workout using we by blast
  then show "filter (\<lambda>e. fst e = n) (logged_workout w) \<noteq> []"
    unfolding filter_empty_conv by force
qed

lemma logged_names:
  "n \<in> fst ` set (logged_sets ws) \<longleftrightarrow> n \<noteq> [] \<and> list_ex (logs_exercise n) ws"
proof (cases "n = []")
  case True
  have "\<forall>e \<in> set (logged_sets ws). fst e \<noteq> []"
    by (auto simp add: mem_logged_sets mem_logged_workout mem_logged_entry)
  then show ?thesis
    using True by (auto simp add: image_iff)
next
  case False
  have "n \<in> fst ` set (logged_sets ws)
      \<longleftrightarrow> (\<exists>e \<in> set (logged_sets ws). fst e = n)"
    by (auto simp add: image_iff)
  also have "\<dots> \<longleftrightarrow> (\<exists>w \<in> set ws. \<exists>e \<in> set (logged_workout w). fst e = n)"
    using mem_logged_sets [of _ ws] by blast
  also have "\<dots> \<longleftrightarrow> (\<exists>w \<in> set ws. filter (\<lambda>e. fst e = n) (logged_workout w) \<noteq> [])"
    unfolding filter_empty_conv by blast
  also have "\<dots> \<longleftrightarrow> (\<exists>w \<in> set ws. logs_exercise n w)"
    unfolding logged_workout_name [OF False] ..
  finally show ?thesis
    using False by (simp add: list_ex_iff)
qed

lemma first_logged_date:
  "n \<noteq> [] \<Longrightarrow> list_ex (logs_exercise n) ws \<Longrightarrow>
     snd (snd (hd (filter (\<lambda>e. fst e = n) (logged_sets ws))))
       = completed_at (hd (filter (logs_exercise n) ws))"
proof (induction ws)
  case Nil
  then show ?case by simp
next
  case (Cons w ws)
  show ?case
  proof (cases "logs_exercise n w")
    case True
    then have ne: "filter (\<lambda>e. fst e = n) (logged_workout w) \<noteq> []"
      using Cons.prems(1) by (simp add: logged_workout_name)
    then have "hd (filter (\<lambda>e. fst e = n) (logged_workout w)) \<in> set (logged_workout w)"
      using hd_in_set [OF ne] by simp
    then have "snd (snd (hd (filter (\<lambda>e. fst e = n) (logged_workout w)))) = completed_at w"
      by (rule logged_workout_date)
    then show ?thesis
      using True ne by (simp add: logged_sets_Cons)
  next
    case False
    then have e: "filter (\<lambda>e. fst e = n) (logged_workout w) = []"
      using Cons.prems(1) logged_workout_name [of n w] by simp
    have "list_ex (logs_exercise n) ws"
      using Cons.prems(2) False by simp
    then show ?thesis
      using Cons.IH Cons.prems(1) False e by (simp add: logged_sets_Cons)
  qed
qed

lemma record_of_ge:
  assumes "e \<in> set (logged_sets ws)"
  shows "\<exists>w d. record_of (fst e) ws = Some (w, d) \<and> fst (snd e) \<le> w"
proof -
  define es where "es = map snd (filter (\<lambda>x. fst x = fst e) (logged_sets ws))"
  have mem: "snd e \<in> set es"
    unfolding es_def using assms by force
  then have ne: "es \<noteq> []"
    by (metis empty_iff list.set(1))
  have "fst (snd e) \<le> Max (fst ` set es)"
    using mem by (intro Max_ge) auto
  moreover have "record_of (fst e) ws
      = Some (Max (fst ` set es), snd (hd (filter (\<lambda>x. fst x = Max (fst ` set es)) es)))"
    unfolding record_of_def Let_def set_map es_def [symmetric] using ne by simp
  ultimately show ?thesis by blast
qed

lemma record_of_all_zero:
  assumes n: "n \<in> fst ` set (logged_sets ws)"
    and z: "\<forall>e \<in> set (logged_sets ws). fst e = n \<longrightarrow> fst (snd e) = 0"
  shows "record_of n ws = Some (0, snd (snd (hd (filter (\<lambda>e. fst e = n) (logged_sets ws)))))"
proof -
  define fs where "fs = filter (\<lambda>e. fst e = n) (logged_sets ws)"
  define es where "es = map snd fs"
  have ne: "fs \<noteq> []"
    unfolding fs_def filter_empty_conv using n by force
  have all0: "\<forall>x \<in> set es. fst x = 0"
    unfolding es_def fs_def using z by auto
  have es_ne: "es \<noteq> []"
    unfolding es_def using ne by simp
  have "fst ` set es = {0}"
    using es_ne all0 by (cases es) auto
  then have M: "Max (fst ` set es) = 0" by simp
  have f: "filter (\<lambda>x. fst x = 0) es = es"
    using all0 by (simp only: filter_id_conv)
  have h: "snd (hd es) = snd (snd (hd fs))"
    unfolding es_def using ne by (simp add: hd_map)
  have "record_of n ws
      = Some (Max (fst ` set es), snd (hd (filter (\<lambda>x. fst x = Max (fst ` set es)) es)))"
    unfolding record_of_def Let_def set_map es_def fs_def using es_ne [unfolded es_def fs_def]
    by simp
  then show ?thesis
    unfolding M f h fs_def .
qed

lemma personalRecords_examples:
  "personalRecords [single_set_workout d1 ''Bench Press'' 100 r1,
                    single_set_workout d2 ''Bench Press'' 120 r2]
     = [\<lparr>pr_exercise = ''Bench Press'', pr_weight = 120, pr_date = d2\<rparr>]"
  "personalRecords [single_set_workout d2 ''Bench Press'' 120 r2,
                    single_set_workout d1 ''Bench Press'' 100 r1]
     = [\<lparr>pr_exercise = ''Bench Press'', pr_weight = 120, pr_date = d2\<rparr>]"
  "personalRecords [single_set_workout d1 ''Bench Press'' 100 r1,
                    single_set_workout d2 ''Bench Press'' 100 r2]
     = [\<lparr>pr_exercise = ''Bench Press'', pr_weight = 100, pr_date = d1\<rparr>]"
  by (simp_all add: personalRecords_def pr_entries_def build_prMap_def pr_workout_def
      pr_exercise_entry_def pr_set_def map_get_def or_zero_def single_set_workout_def)

text \<open>
  C4. Every record returned belongs to an exercise name met in the traversal and holds the
  greatest weight logged in any set of that exercise (a null weight counting as 0)
  together with the completion date of the workout holding the first set, in traversal
  order, that reaches this weight. Every logged set is covered: either its exercise has a
  record in the output, at least as heavy as the set, or the output is full with ten
  records at least as heavy. The output has one record per name, is sorted by weight
  descending and has at most 10 entries (exactly the smaller of 10 and the number of
  names with a set). Bench Press at 100 kg and at 120 kg on two dates gives the one record
  of 120 kg with the date of the 120 kg set, whichever workout comes first; two sets tied
  at 100 kg keep the date of the first one met.
\<close>

theorem C4_personalRecords:
  "(\<forall>r \<in> set (personalRecords ws).
      record_of (pr_exercise r) ws = Some (pr_weight r, pr_date r))
   \<and> (\<forall>e \<in> set (logged_sets ws).
        (\<exists>r \<in> set (personalRecords ws). pr_exercise r = fst e \<and> fst (snd e) \<le> pr_weight r)
        \<or> (length (personalRecords ws) = 10
            \<and> (\<forall>r \<in> set (personalRecords ws). fst (snd e) \<le> pr_weight r)))
   \<and> distinct (map pr_exercise (personalRecords ws))
   \<and> sorted_wrt (\<lambda>a b. pr_weight a \<ge> pr_weight b) (personalRecords ws)
   \<and> length (personalRecords ws) = min 10 (card (fst ` set (logged_sets ws)))
   \<and> length (personalRecords ws) \<le> 10
   \<and> personalRecords [single_set_workout d1 ''Bench Press'' 100 r1,
                       single_set_workout d2 ''Bench Press'' 120 r2]
       = [\<lparr>pr_exercise = ''Bench Press'', pr_weight = 120, pr_date = d2\<rparr>]
   \<and> personalRecords [single_set_workout d2 ''Bench Press'' 120 r2,
                       single_set_workout d1 ''Bench Press'' 100 r1]
       = [\<lparr>pr_exercise = ''Bench Press'', pr_weight = 120, pr_date = d2\<rparr>]
   \<and> personalRecords [single_set_workout d1 ''Bench Press'' 100 r1,
                       single_set_workout d2 ''Bench Press'' 100 r2]
       = [\<lparr>pr_exercise = ''Bench Press'', pr_weight = 100, pr_date = d1\<rparr>]"
proof -
  have a: "\<forall>r \<in> set (personalRecords ws).
      record_of (pr_exercise r) ws = Some (pr_weight r, pr_date r)"
    using personalRecords_subset [of ws] pr_entries_record [of _ ws] by blast
  have b: "\<forall>e \<in> set (logged_sets ws).
        (\<exists>r \<in> set (personalRecords ws). pr_exercise r = fst e \<and> fst (snd e) \<le> pr_weight r)
        \<or> (length (personalRecords ws) = 10
            \<and> (\<forall>r \<in> set (personalRecords ws). fst (snd e) \<le> pr_weight r))"
  proof
    fix e assume "e \<in> set (logged_sets ws)"
    then obtain w d where rec: "record_of (fst e) ws = Some (w, d)" and le: "fst (snd e) \<le> w"
      using record_of_ge by blast
    let ?r = "\<lparr>pr_exercise = fst e, pr_weight = w, pr_date = d\<rparr>"
    from personalRecords_top [OF rec]
    show "(\<exists>r \<in> set (personalRecords ws). pr_exercise r = fst e \<and> fst (snd e) \<le> pr_weight r)
        \<or> (length (personalRecords ws) = 10
            \<and> (\<forall>r \<in> set (personalRecords ws). fst (snd e) \<le> pr_weight r))"
    proof
      assume "?r \<in> set (personalRecords ws)"
      moreover have "pr_exercise ?r = fst e \<and> fst (snd e) \<le> pr_weight ?r"
        using le by simp
      ultimately show ?thesis by blast
    next
      assume "length (personalRecords ws) = 10 \<and> (\<forall>r \<in> set (personalRecords ws). w \<le> pr_weight r)"
      then show ?thesis
        using le by (meson order_trans)
    qed
  qed
  have c: "length (personalRecords ws) \<le> 10"
    by (simp add: personalRecords_def)
  show ?thesis
    using a b c distinct_personalRecords [of ws] sorted_personalRecords [of ws]
      length_personalRecords [of ws] personalRecords_examples
    by (intro conjI)
qed

lemma personalRecords_example_workouts:
  "personalRecords example_workouts
     = [\<lparr>pr_exercise = ''Bench Press'', pr_weight = 120, pr_date = 1727784000000\<rparr>,
        \<lparr>pr_exercise = ''Squat'', pr_weight = 0, pr_date = 1727956800000\<rparr>]"
  by (simp add: personalRecords_def pr_entries_def build_prMap_def pr_workout_def
      pr_exercise_entry_def pr_set_def map_get_def or_zero_def single_set_workout_def
      example_workouts_def)

theorem C4_personalRecords_witness:
  "personalRecords example_workouts
     = [\<lparr>pr_exercise = ''Bench Press'', pr_weight = 120, pr_date = 1727784000000\<rparr>,
        \<lparr>pr_exercise = ''Squat'', pr_weight = 0, pr_date = 1727956800000\<rparr>]
   \<and> record_of ''Bench Press'' example_workouts = Some (120, 1727784000000)
   \<and> record_of ''Squat'' example_workouts = Some (0, 1727956800000)"
  using C4_personalRecords [of example_workouts]
  by (simp add: personalRecords_example_workouts)

lemma length_pr_entries: "length (pr_entries ws) = card (fst ` set (logged_sets ws))"
proof -
  have "length (pr_entries ws) = length (map fst (build_prMap ws))"
    by (simp add: pr_entries_def)
  also have "\<dots> = card (set (map fst (build_prMap ws)))"
    using distinct_card [OF distinct_build_prMap] by simp
  also have "\<dots> = card (fst ` set (logged_sets ws))"
    by (simp add: keys_build_prMap)
  finally show ?thesis .
qed

lemma null_weights_logged_zero:
  assumes "\<forall>w \<in> set ws. \<forall>we \<in> set (workout_exercises w).
      we_exercise we = Some n \<longrightarrow> (\<forall>s \<in> set (we_sets we). weight s = None)"
  shows "\<forall>e \<in> set (logged_sets ws). fst e = n \<longrightarrow> fst (snd e) = 0"
proof (intro ballI impI)
  fix e assume e: "e \<in> set (logged_sets ws)" and fe: "fst e = n"
  from e obtain w where w: "w \<in> set ws" and ew: "e \<in> set (logged_workout w)"
    unfolding mem_logged_sets by blast
  from ew obtain we where we: "we \<in> set (workout_exercises w)"
    and el: "e \<in> set (logged_entry (completed_at w) we)"
    unfolding mem_logged_workout by blast
  from el obtain m s where m: "we_exercise we = Some m" and s: "s \<in> set (we_sets we)"
    and eq: "e = (m, or_zero (weight s), completed_at w)"
    unfolding mem_logged_entry by blast
  have "m = n" using fe eq by simp
  then have "weight s = None"
    using assms w we m s by blast
  then show "fst (snd e) = 0"
    using eq by (simp add: or_zero_def)
qed

text \<open>
  C10. An exercise name that has at least one logged set, all of whose sets have a null
  weight, gets a record of weight 0 dated at the first workout of the traversal that logs
  a set for it. The record is among the entries before truncation; it is in the output
  unless ten records of weight at least 0 fill it, and always when at most ten names have
  a set. (An exercise entry without any set produces no record at all.)
\<close>

theorem C10_null_weight_sets_give_zero_record:
  assumes n: "n \<noteq> []"
    and logged: "list_ex (logs_exercise n) ws"
    and nulls: "\<forall>w \<in> set ws. \<forall>we \<in> set (workout_exercises w).
      we_exercise we = Some n \<longrightarrow> (\<forall>s \<in> set (we_sets we). weight s = None)"
  shows "record_of n ws = Some (0, completed_at (hd (filter (logs_exercise n) ws)))
    \<and> \<lparr>pr_exercise = n, pr_weight = 0, pr_date = completed_at (hd (filter (logs_exercise n) ws))\<rparr>
        \<in> set (pr_entries ws)
    \<and> (\<lparr>pr_exercise = n, pr_weight = 0, pr_date = completed_at (hd (filter (logs_exercise n) ws))\<rparr>
          \<in> set (personalRecords ws)
        \<or> (length (personalRecords ws) = 10 \<and> (\<forall>r \<in> set (personalRecords ws). 0 \<le> pr_weight r)))
    \<and> (card (fst ` set (logged_sets ws)) \<le> 10 \<longrightarrow>
        \<lparr>pr_exercise = n, pr_weight = 0, pr_date = completed_at (hd (filter (logs_exercise n) ws))\<rparr>
          \<in> set (personalRecords ws))"
proof -
  define d where "d = completed_at (hd (filter (logs_exercise n) ws))"
  have mem: "n \<in> fst ` set (logged_sets ws)"
    using n logged by (simp add: logged_names)
  have rec: "record_of n ws = Some (0, d)"
    using record_of_all_zero [OF mem null_weights_logged_zero [OF nulls]]
      first_logged_date [OF n logged]
    by (simp add: d_def)
  have ent: "\<lparr>pr_exercise = n, pr_weight = 0, pr_date = d\<rparr> \<in> set (pr_entries ws)"
    by (rule record_of_pr_entries [OF rec])
  have top: "\<lparr>pr_exercise = n, pr_weight = 0, pr_date = d\<rparr> \<in> set (personalRecords ws)
      \<or> (length (personalRecords ws) = 10 \<and> (\<forall>r \<in> set (personalRecords ws). 0 \<le> pr_weight r))"
    by (rule personalRecords_top [OF rec])
  have few: "card (fst ` set (logged_sets ws)) \<le> 10 \<longrightarrow>
      \<lparr>pr_exercise = n, pr_weight = 0, pr_date = d\<rparr> \<in> set (personalRecords ws)"
  proof
    assume "card (fst ` set (logged_sets ws)) \<le> 10"
    then have "length (sort_key (\<lambda>r. - pr_weight r) (pr_entries ws)) \<le> 10"
      by (simp add: length_pr_entries)
    then have "personalRecords ws = sort_key (\<lambda>r. - pr_weight r) (pr_entries ws)"
      unfolding personalRecords_def by (rule take_all)
    then show "\<lparr>pr_exercise = n, pr_weight = 0, pr_date = d\<rparr> \<in> set (personalRecords ws)"
      using ent by simp
  qed
  show ?thesis
    using rec ent top few unfolding d_def by (intro conjI)
qed

theorem C10_null_weight_witness:
  "record_of ''Squat'' example_workouts = Some (0, 1727956800000)
   \<and> \<lparr>pr_exercise = ''Squat'', pr_weight = 0, pr_date = 1727956800000\<rparr>
        \<in> set (pr_entries example_workouts)"
proof -
  have n: "''Squat'' \<noteq> []" by simp
  have l: "list_ex (logs_exercise ''Squat'') example_workouts"
    by (simp add: example_workouts_def logs_exercise_def single_set_workout_def)
  have z: "\<forall>w \<in> set example_workouts. \<forall>we \<in> set (workout_exercises w).
      we_exercise we = Some ''Squat'' \<longrightarrow> (\<forall>s \<in> set (we_sets we). weight s = None)"
    by (simp add: example_workouts_def single_set_workout_def)
  have d: "completed_at (hd (filter (logs_exercise ''Squat'') example_workouts)) = 1727956800000"
    by (simp add: example_workouts_def logs_exercise_def single_set_workout_def)
  show ?thesis
    using C10_null_weight_sets_give_zero_record [OF n l z] unfolding d by blast
qed

theorem C10_exercise_without_sets_counterexample:
  "workout_exercises workout_without_sets = [\<lparr>we_exercise = Some ''Squat'', we_sets = []\<rparr>]
   \<and> personalRecords [workout_without_sets] = []
   \<and> pr_entries [workout_without_sets] = []"
  by (simp add: personalRecords_def pr_entries_def build_prMap_def pr_workout_def
      pr_exercise_entry_def workout_without_sets_def)

section \<open>Properties of the exercise history\<close>

lemma Max_insert_max:
  "finite S \<Longrightarrow> Max (insert (max w m) S) = Max (insert m (insert w S))"
  by (cases "S = {}") (simp_all add: max.commute max.left_commute)

lemma fold_history_set:
  "fold history_set ss (mw, dm, dv, ts)
     = (Max (insert mw (set (set_weights ss))), Max (insert dm (set (set_weights ss))),
        dv + sets_volume ss, ts + length ss)"
proof (induction ss arbitrary: mw dm dv ts)
  case Nil
  then show ?case by (simp add: set_weights_def sets_volume_def)
next
  case (Cons s ss)
  let ?w = "or_zero (weight s)"
  have step: "history_set s (mw, dm, dv, ts)
      = (max ?w mw, max ?w dm, dv + ?w * or_zero (reps s), ts + 1)"
    by (simp add: history_set_def Let_def max_def)
  have fin: "finite (set (set_weights ss))" by simp
  have w: "set (set_weights (s # ss)) = insert ?w (set (set_weights ss))"
    by (simp add: set_weights_def)
  have v: "sets_volume (s # ss) = ?w * or_zero (reps s) + sets_volume ss"
    by (simp add: sets_volume_def)
  show ?case
    unfolding fold_Cons comp_apply step Cons.IH w v Max_insert_max [OF fin]
    by (simp add: add.assoc)
qed

lemma history_step_hist:
  "snd (snd (history_step we (mw, ts, m)))
     = (case entry_day we of
          None \<Rightarrow> m
        | Some d \<Rightarrow> map_set d (the (day_merge we (map_of m d))) m)"
  by (cases "entry_completed we")
    (simp_all add: history_step_def entry_day_def fold_history_set map_get_def day_merge_def Let_def)

lemma map_of_history_step:
  "map_of (snd (snd (history_step we st))) d
     = (if entry_day we = Some d then day_merge we (map_of (snd (snd st)) d)
        else map_of (snd (snd st)) d)"
proof -
  obtain mw ts m where st: "st = (mw, ts, m)" by (cases st) auto
  show ?thesis
    unfolding st history_step_hist
    by (cases "entry_day we") (simp_all add: map_of_map_set day_merge_def Let_def)
qed

lemma map_of_fold_history_step:
  "map_of (snd (snd (fold history_step es st))) d
     = fold day_merge (filter (\<lambda>we. entry_day we = Some d) es) (map_of (snd (snd st)) d)"
  by (induction es arbitrary: st) (simp_all add: map_of_history_step)

lemma keys_history_step:
  "map fst (snd (snd (history_step we (mw, ts, m))))
     = (case entry_day we of
          None \<Rightarrow> map fst m
        | Some d \<Rightarrow> if d \<in> fst ` set m then map fst m else map fst m @ [d])"
  unfolding history_step_hist by (cases "entry_day we") (simp_all add: keys_map_set)

lemma distinct_history_step:
  "distinct (map fst (snd (snd st))) \<Longrightarrow> distinct (map fst (snd (snd (history_step we st))))"
proof -
  obtain mw ts m where st: "st = (mw, ts, m)" by (cases st) auto
  show "distinct (map fst (snd (snd st))) \<Longrightarrow> distinct (map fst (snd (snd (history_step we st))))"
    unfolding st keys_history_step by (cases "entry_day we") simp_all
qed

lemma distinct_fold_history_step:
  "distinct (map fst (snd (snd st))) \<Longrightarrow>
     distinct (map fst (snd (snd (fold history_step es st))))"
  by (induction es arbitrary: st) (simp_all add: distinct_history_step)

lemma Max0_append:
  "Max (insert (0::rat) (set (xs @ ys)))
     = max (Max (insert 0 (set xs))) (Max (insert 0 (set ys)))"
proof -
  have "insert (0::rat) (set (xs @ ys)) = insert 0 (set xs) \<union> insert 0 (set ys)"
    by auto
  then show ?thesis
    by (simp only: Max_Un [of "insert 0 (set xs)" "insert 0 (set ys)"] finite_insert
        List.finite_set insert_not_empty not_False_eq_True simp_thms)
qed

lemma Max0_nonneg: "0 \<le> Max (insert (0::rat) (set xs))"
  by (rule Max_ge) simp_all

lemma fold_day_merge:
  "es \<noteq> [] \<Longrightarrow> fold day_merge es acc
     = Some (max (case acc of None \<Rightarrow> 0 | Some a \<Rightarrow> fst a)
                 (Max (insert 0 (set (set_weights (concat (map he_sets es)))))),
             (case acc of None \<Rightarrow> 0 | Some a \<Rightarrow> snd a) + sets_volume (concat (map he_sets es)))"
proof (induction es arbitrary: acc)
  case Nil
  then show ?case by simp
next
  case (Cons we es)
  define a where "a = (case acc of None \<Rightarrow> (0::rat) | Some x \<Rightarrow> fst x)"
  define b where "b = (case acc of None \<Rightarrow> (0::rat) | Some x \<Rightarrow> snd x)"
  define W where "W = Max (insert 0 (set (set_weights (he_sets we))))"
  have one: "day_merge we acc = Some (max a W, b + sets_volume (he_sets we))"
    by (cases acc) (simp_all add: day_merge_def a_def b_def W_def Let_def)
  have wapp: "set_weights (he_sets we @ concat (map he_sets es))
      = set_weights (he_sets we) @ set_weights (concat (map he_sets es))"
    by (simp add: set_weights_def)
  have vapp: "sets_volume (he_sets we @ concat (map he_sets es))
      = sets_volume (he_sets we) + sets_volume (concat (map he_sets es))"
    by (simp add: sets_volume_def)
  show ?case
  proof (cases "es = []")
    case True
    then show ?thesis
      using one by (simp add: a_def b_def W_def set_weights_def sets_volume_def)
  next
    case False
    have "fold day_merge (we # es) acc = fold day_merge es (Some (max a W, b + sets_volume (he_sets we)))"
      by (simp add: one)
    also have "\<dots> = Some (max (max a W) (Max (insert 0 (set (set_weights (concat (map he_sets es)))))),
         (b + sets_volume (he_sets we)) + sets_volume (concat (map he_sets es)))"
      using Cons.IH [OF False] by simp
    also have "\<dots> = Some (max a (Max (insert 0 (set (set_weights (concat (map he_sets (we # es))))))),
         b + sets_volume (concat (map he_sets (we # es))))"
      unfolding list.map concat.simps wapp vapp Max0_append W_def
      by (simp add: max.assoc add.assoc)
    finally show ?thesis
      unfolding a_def b_def .
  qed
qed

lemma fold_day_merge_None:
  assumes "es \<noteq> []"
  shows "fold day_merge es None
     = Some (Max (insert 0 (set (set_weights (concat (map he_sets es))))),
             sets_volume (concat (map he_sets es)))"
  using fold_day_merge [OF assms, of None] Max0_nonneg [of "set_weights (concat (map he_sets es))"]
  by (simp add: max_def)

lemma fetchHistory_history:
  "snd (fetchHistory uid rows)
     = slice_last 10 (sort_key (\<lambda>h. key_time (hp_date h)) (history_points uid rows))"
  by (simp add: fetchHistory_def history_points_def history_map_def Let_def split_beta)

lemma fetchHistory_timesPerformed:
  "timesPerformed (fst (fetchHistory uid rows)) = length (filter (qualifies uid) rows)"
  by (simp add: fetchHistory_def Let_def split_beta)

lemma mem_map_filter:
  "y \<in> set (List.map_filter f xs) \<longleftrightarrow> (\<exists>x \<in> set xs. f x = Some y)"
  by (induction xs) (auto split: option.splits)

lemma mem_qualifying_days:
  "d \<in> set (qualifying_days uid rows)
     \<longleftrightarrow> filter (\<lambda>we. qualifies uid we \<and> entry_day we = Some d) rows \<noteq> []"
  unfolding qualifying_days_def mem_map_filter filter_empty_conv by auto

lemma map_of_history_map:
  "map_of (history_map uid rows) d
     = (if d \<in> set (qualifying_days uid rows)
        then Some (Max (insert 0 (set (set_weights (day_sets uid rows d)))),
                   sets_volume (day_sets uid rows d))
        else None)"
proof -
  define es where "es = filter (\<lambda>we. qualifies uid we \<and> entry_day we = Some d) rows"
  have l: "map_of (history_map uid rows) d = fold day_merge es None"
    by (simp add: history_map_def map_of_fold_history_step es_def conj_commute)
  have ds: "day_sets uid rows d = concat (map he_sets es)"
    by (simp add: day_sets_def es_def)
  have q: "d \<in> set (qualifying_days uid rows) \<longleftrightarrow> es \<noteq> []"
    unfolding es_def by (rule mem_qualifying_days)
  show ?thesis
  proof (cases "es = []")
    case True
    then show ?thesis using q l by simp
  next
    case False
    then show ?thesis
      using q l ds fold_day_merge_None [OF False] by simp
  qed
qed

lemma distinct_history_map: "distinct (map fst (history_map uid rows))"
  by (simp add: history_map_def distinct_fold_history_step)

lemma keys_history_map: "set (map fst (history_map uid rows)) = set (qualifying_days uid rows)"
proof -
  have "d \<in> set (map fst (history_map uid rows)) \<longleftrightarrow> d \<in> set (qualifying_days uid rows)" for d
    using map_of_eq_None_iff [of "history_map uid rows" d]
    by (simp add: map_of_history_map split: if_splits)
  then show ?thesis by blast
qed

lemma history_points_dates: "map hp_date (history_points uid rows) = map fst (history_map uid rows)"
  by (simp add: history_points_def case_prod_beta comp_def)

lemma history_points_values:
  assumes "p \<in> set (history_points uid rows)"
  shows "hp_maxWeight p = Max (insert 0 (set (set_weights (day_sets uid rows (hp_date p)))))
    \<and> hp_totalVolume p = sets_volume (day_sets uid rows (hp_date p))"
proof -
  obtain d dat where mem: "(d, dat) \<in> set (history_map uid rows)"
    and p: "p = \<lparr>hp_date = d, hp_maxWeight = fst dat, hp_totalVolume = snd dat\<rparr>"
    using assms by (auto simp add: history_points_def)
  have "map_of (history_map uid rows) d = Some dat"
    using mem distinct_history_map by simp
  then have "dat = (Max (insert 0 (set (set_weights (day_sets uid rows d)))),
      sets_volume (day_sets uid rows d))"
    unfolding map_of_history_map by (simp split: if_splits)
  then show ?thesis
    by (simp add: p)
qed

lemma key_time_le: "key_time a \<le> key_time b \<longleftrightarrow> a \<le> b"
  by (simp add: key_time_def msPerDay_def)

lemma sorted_history_dates:
  "map hp_date (sort_key (\<lambda>h. key_time (hp_date h)) (history_points uid rows))
     = sorted_list_of_set (set (qualifying_days uid rows))"
proof -
  let ?xs = "sort_key (\<lambda>h. key_time (hp_date h)) (history_points uid rows)"
  have "sorted (map (\<lambda>h. key_time (hp_date h)) ?xs)"
    by (rule sorted_sort_key)
  then have s: "sorted (map hp_date ?xs)"
    by (simp add: sorted_map key_time_le)
  have "distinct (map hp_date (history_points uid rows))"
    by (simp add: history_points_dates distinct_history_map)
  then have d: "distinct (map hp_date ?xs)"
    by (simp add: distinct_map)
  have "set (map hp_date ?xs) = set (map hp_date (history_points uid rows))"
    by simp
  also have "\<dots> = set (qualifying_days uid rows)"
    unfolding history_points_dates by (rule keys_history_map)
  finally have e: "set (map hp_date ?xs) = set (qualifying_days uid rows)" .
  show ?thesis
  proof (rule sorted_distinct_set_unique [OF s d])
    show "sorted (sorted_list_of_set (set (qualifying_days uid rows)))" by simp
    show "distinct (sorted_list_of_set (set (qualifying_days uid rows)))" by simp
    show "set (map hp_date ?xs) = set (sorted_list_of_set (set (qualifying_days uid rows)))"
      unfolding e by simp
  qed
qed

lemma length_slice_last: "length (slice_last n xs) \<le> n"
  by (simp add: slice_last_def)

lemma map_slice_last: "map f (slice_last n xs) = slice_last n (map f xs)"
  by (simp add: slice_last_def drop_map)

lemma set_slice_last: "set (slice_last n xs) \<subseteq> set xs"
  by (simp add: slice_last_def set_drop_subset)

text \<open>
  C6. The history series of one exercise, over the rows of the requesting user's completed
  workouts: it has at most 10 entries; its dates are strictly ascending, one entry per day;
  the dates are the last 10 of the ascending list of days that carry a qualifying entry;
  and each entry holds the greatest weight of that day's sets (null as 0, and 0 when no
  set carries a weight) and the sum of weight x reps over that day's sets.
\<close>

theorem C6_history_series:
  "length (snd (fetchHistory uid rows)) \<le> 10
   \<and> sorted_wrt (<) (map hp_date (snd (fetchHistory uid rows)))
   \<and> map hp_date (snd (fetchHistory uid rows))
       = slice_last 10 (sorted_list_of_set (set (qualifying_days uid rows)))
   \<and> (\<forall>p \<in> set (snd (fetchHistory uid rows)).
        hp_maxWeight p = Max (insert 0 (set (set_weights (day_sets uid rows (hp_date p)))))
        \<and> hp_totalVolume p = sets_volume (day_sets uid rows (hp_date p)))"
proof -
  have a: "length (snd (fetchHistory uid rows)) \<le> 10"
    by (simp add: fetchHistory_history length_slice_last)
  have c: "map hp_date (snd (fetchHistory uid rows))
       = slice_last 10 (sorted_list_of_set (set (qualifying_days uid rows)))"
    by (simp only: fetchHistory_history map_slice_last sorted_history_dates)
  have "sorted_wrt (<) (sorted_list_of_set (set (qualifying_days uid rows)))"
    by (simp add: strict_sorted_iff)
  then have b: "sorted_wrt (<) (map hp_date (snd (fetchHistory uid rows)))"
    unfolding c slice_last_def by (rule sorted_wrt_drop)
  have d: "\<forall>p \<in> set (snd (fetchHistory uid rows)).
        hp_maxWeight p = Max (insert 0 (set (set_weights (day_sets uid rows (hp_date p)))))
        \<and> hp_totalVolume p = sets_volume (day_sets uid rows (hp_date p))"
  proof
    fix p assume "p \<in> set (snd (fetchHistory uid rows))"
    then have "p \<in> set (sort_key (\<lambda>h. key_time (hp_date h)) (history_points uid rows))"
      unfolding fetchHistory_history by (rule subsetD [OF set_slice_last])
    then have m: "p \<in> set (history_points uid rows)" by simp
    show "hp_maxWeight p = Max (insert 0 (set (set_weights (day_sets uid rows (hp_date p)))))
        \<and> hp_totalVolume p = sets_volume (day_sets uid rows (hp_date p))"
      using history_points_values [OF m] .
  qed
  show ?thesis
    using a b c d by (intro conjI)
qed

lemma fetchHistory_example:
  "fetchHistory ''u1'' example_history
     = (\<lparr>maxWeight = 120, totalSets = 4, timesPerformed = 3\<rparr>,
        [\<lparr>hp_date = 20000, hp_maxWeight = 110, hp_totalVolume = 1550\<rparr>,
         \<lparr>hp_date = 20001, hp_maxWeight = 120, hp_totalVolume = 0\<rparr>])"
  by (simp add: fetchHistory_def example_history_def qualifies_def entry_user_def
      entry_completed_def history_step_def history_set_def or_zero_def map_get_def dateKey_def
      msPerDay_def slice_last_def key_time_def Let_def)

theorem C6_history_series_witness:
  "map hp_date (snd (fetchHistory ''u1'' example_history)) = [20000, 20001]
   \<and> slice_last 10 (sorted_list_of_set (set (qualifying_days ''u1'' example_history)))
       = [20000, 20001]
   \<and> Max (insert 0 (set (set_weights (day_sets ''u1'' example_history 20000)))) = 110
   \<and> sets_volume (day_sets ''u1'' example_history 20000) = 1550"
  using C6_history_series [of "''u1''" example_history]
  by (simp add: fetchHistory_example)

text \<open>
  C7. The statistic shown as "Sessions" should count the distinct qualifying workouts. The
  code takes the number of qualifying \<open>workout_exercises\<close> rows instead: one completed
  workout in which the exercise was added as two separate entries counts as 2.
\<close>

theorem C7_entries_counted_not_workouts:
  "timesPerformed (fst (fetchHistory ''u1'' same_workout_twice)) = 2
   \<and> length (remdups (map he_workout same_workout_twice)) = 1"
  by (simp add: fetchHistory_timesPerformed same_workout_twice_def qualifies_def entry_user_def
      entry_completed_def)

section \<open>Properties of the set editor\<close>

lemma dense_set_numbers_sort:
  "dense_set_numbers sets \<longleftrightarrow> sort (map set_number sets) = [1..int (length sets)]"
proof
  assume d: "dense_set_numbers sets"
  show "sort (map set_number sets) = [1..int (length sets)]"
  proof (rule sorted_distinct_set_unique)
    show "sorted (sort (map set_number sets))" by simp
    show "distinct (sort (map set_number sets))"
      using d by (simp add: dense_set_numbers_def)
    show "sorted [1..int (length sets)]" by simp
    show "distinct [1..int (length sets)]" by simp
    show "set (sort (map set_number sets)) = set [1..int (length sets)]"
      using d by (simp add: dense_set_numbers_def)
  qed
next
  assume s: "sort (map set_number sets) = [1..int (length sets)]"
  have "distinct (sort (map set_number sets))"
    unfolding s by simp
  moreover have "set (sort (map set_number sets)) = {1..int (length sets)}"
    unfolding s by simp
  ultimately show "dense_set_numbers sets"
    by (simp add: dense_set_numbers_def)
qed

lemma filter_map_update:
  "filter (\<lambda>we. awe_id we = i)
      (map (\<lambda>we. if awe_id we = i then we\<lparr>awe_sets := f (awe_sets we)\<rparr> else we) xs)
     = map (\<lambda>we. we\<lparr>awe_sets := f (awe_sets we)\<rparr>) (filter (\<lambda>we. awe_id we = i) xs)"
  by (induction xs) simp_all

lemma sets_of_update:
  "sets_of i (map (\<lambda>we. if awe_id we = i then we\<lparr>awe_sets := f (awe_sets we)\<rparr> else we) xs)
     = (if i \<in> awe_id ` set xs then f (sets_of i xs) else [])"
proof (cases "filter (\<lambda>we. awe_id we = i) xs")
  case Nil
  then have "i \<notin> awe_id ` set xs"
    by (auto simp add: filter_empty_conv)
  then show ?thesis
    using Nil by (simp add: sets_of_def filter_map_update)
next
  case (Cons we wes)
  then have "we \<in> set (filter (\<lambda>we. awe_id we = i) xs)" by simp
  then have "i \<in> awe_id ` set xs" by auto
  then show ?thesis
    using Cons by (simp add: sets_of_def filter_map_update)
qed

lemma addSet_sets_of:
  "sets_of i (addSet (Some newId) i cur exercises)
     = (if i \<in> awe_id ` set exercises
        then sets_of i exercises @ [inserted_set newId (int (length cur) + 1)]
        else [])"
  unfolding addSet_def option.case Let_def
  by (rule sets_of_update [where f = "\<lambda>ss. ss @ [inserted_set newId (int (length cur) + 1)]"])

lemma deleteSet_sets_of:
  "sets_of i (deleteSet i setId exercises)
     = (if i \<in> awe_id ` set exercises
        then filter (\<lambda>s. sd_id s \<noteq> setId) (sets_of i exercises) else [])"
  unfolding deleteSet_def
  by (rule sets_of_update [where f = "filter (\<lambda>s. sd_id s \<noteq> setId)"])

lemma dense_append_next:
  assumes "dense_set_numbers sets"
  shows "dense_set_numbers (sets @ [inserted_set newId (int (length sets) + 1)])"
proof -
  have d: "distinct (map set_number sets)" and s: "set (map set_number sets) = {1..int (length sets)}"
    using assms by (simp_all add: dense_set_numbers_def)
  have n: "set_number (inserted_set newId (int (length sets) + 1)) = int (length sets) + 1"
    by (simp add: inserted_set_def)
  have "int (length sets) + 1 \<notin> set (map set_number sets)"
    unfolding s by simp
  moreover have "insert (int (length sets) + 1) {1..int (length sets)} = {1..int (length sets) + 1}"
    by auto
  ultimately show ?thesis
    using d s n by (simp add: dense_set_numbers_def)
qed

lemma addSet_preserves_dense:
  assumes "dense_set_numbers (sets_of i exercises)"
  shows "dense_set_numbers (sets_of i (addSet stored i (sets_of i exercises) exercises))"
proof (cases stored)
  case None
  then show ?thesis using assms by (simp add: addSet_def)
next
  case (Some newId)
  show ?thesis
  proof (cases "i \<in> awe_id ` set exercises")
    case True
    then show ?thesis
      unfolding Some addSet_sets_of using dense_append_next [OF assms] by simp
  next
    case False
    then show ?thesis
      unfolding Some addSet_sets_of by (simp add: dense_set_numbers_def)
  qed
qed

text \<open>
  C5. Set numbers should stay unique and dense from 1 under every sequence of \<open>addSet\<close>
  and \<open>deleteSet\<close>. \<open>addSet\<close> alone keeps the invariant (lemma above), but
  \<open>deleteSet\<close> removes a set without renumbering the rest: from sets numbered 1, 2, 3,
  deleting the second leaves 1, 3, and the next \<open>addSet\<close> numbers its set
  \<open>length + 1 = 3\<close>, giving 1, 3, 3.
\<close>

theorem C5_deleteSet_breaks_set_numbers:
  "dense_set_numbers (sets_of ''we1'' three_sets)
   \<and> map set_number (sets_of ''we1'' (deleteSet ''we1'' ''s2'' three_sets)) = [1, 3]
   \<and> \<not> dense_set_numbers (sets_of ''we1'' (deleteSet ''we1'' ''s2'' three_sets))
   \<and> map set_number (sets_of ''we1''
         (addSet (Some ''s4'') ''we1'' (sets_of ''we1'' (deleteSet ''we1'' ''s2'' three_sets))
            (deleteSet ''we1'' ''s2'' three_sets))) = [1, 3, 3]
   \<and> \<not> dense_set_numbers (sets_of ''we1''
         (addSet (Some ''s4'') ''we1'' (sets_of ''we1'' (deleteSet ''we1'' ''s2'' three_sets))
            (deleteSet ''we1'' ''s2'' three_sets)))"
  by (simp add: dense_set_numbers_sort sets_of_def three_sets_def inserted_set_def deleteSet_def
      addSet_def upto.simps [of 1])

end
